theory Spec2Isabelle
  imports Main "HOL-Library.List_Lexorder" "HOL-Library.Char_ord" "HOL-Library.AList"
    "HOL-Library.Product_Lexorder"
begin

section \<open>Strings and byte slices\<close>

text \<open>
  Go strings and byte slices are sequences of bytes: both are \<open>string\<close> here, and a nil
  slice is the empty list. \<open>sort.Strings\<close> orders byte-wise, which is the lexicographic
  order of \<open>string\<close> over the byte order of \<open>char\<close>.
\<close>

definition NL :: char where
  "NL = CHR 0x0A"

definition TAB :: char where
  "TAB = CHR 0x09"

definition HasPrefix :: "string \<Rightarrow> string \<Rightarrow> bool" where
  "HasPrefix s p = (take (length p) s = p)"

definition HasSuffix :: "string \<Rightarrow> string \<Rightarrow> bool" where
  "HasSuffix s suf = (length suf \<le> length s \<and> drop (length s - length suf) s = suf)"

definition TrimSuffix :: "string \<Rightarrow> string \<Rightarrow> string" where
  "TrimSuffix s suf = (if HasSuffix s suf then take (length s - length suf) s else s)"

fun strings_Join :: "string list \<Rightarrow> string \<Rightarrow> string" where
  "strings_Join [] sep = []"
| "strings_Join [x] sep = x"
| "strings_Join (x # y # ys) sep = x @ sep @ strings_Join (y # ys) sep"

text \<open>The decimal rendering of a count, as \<open>%d\<close> and \<open>%v\<close> print it.\<close>

function show_nat :: "nat \<Rightarrow> string" where
  "show_nat n = (if n < 10 then [''0123456789'' ! n]
                 else show_nat (n div 10) @ [''0123456789'' ! (n mod 10)])"
  by pat_completeness auto
termination
  by (relation "measure id") auto

text \<open>
  \<open>strings.Fields\<close> splits around runs of white space as \<open>unicode.IsSpace\<close> defines it.
  On bytes: the six ASCII white-space characters, and the UTF-8 encodings of U+0085,
  U+00A0, U+1680, U+2000 to U+200A, U+2028, U+2029, U+202F, U+205F and U+3000. Each of
  these encodings starts with a lead byte, which never occurs inside another rune, so
  the scan can go byte by byte. \<open>spaceLen s\<close> is the width of the white-space rune at
  the front of \<open>s\<close>, or 0 when there is none.
\<close>

definition asciiSpace :: "char \<Rightarrow> bool" where
  "asciiSpace c = (c = CHR 0x09 \<or> c = CHR 0x0A \<or> c = CHR 0x0B \<or> c = CHR 0x0C
                   \<or> c = CHR 0x0D \<or> c = CHR 0x20)"

fun spaceLen :: "string \<Rightarrow> nat" where
  "spaceLen [] = 0"
| "spaceLen (c # cs) =
    (if asciiSpace c then 1
     else if c = CHR 0xC2 \<and> (take 1 cs = [CHR 0x85] \<or> take 1 cs = [CHR 0xA0]) then 2
     else if c = CHR 0xE1 \<and> take 2 cs = [CHR 0x9A, CHR 0x80] then 3
     else if c = CHR 0xE2 \<and> take 1 cs = [CHR 0x80] \<and> 2 \<le> length cs
              \<and> ((0x80::nat) \<le> of_char (cs ! 1) \<and> of_char (cs ! 1) \<le> (0x8A::nat)
                   \<or> cs ! 1 = CHR 0xA8 \<or> cs ! 1 = CHR 0xA9 \<or> cs ! 1 = CHR 0xAF) then 3
     else if c = CHR 0xE2 \<and> take 2 cs = [CHR 0x81, CHR 0x9F] then 3
     else if c = CHR 0xE3 \<and> take 2 cs = [CHR 0x80, CHR 0x80] then 3
     else 0)"

function Fields_from :: "string \<Rightarrow> string \<Rightarrow> string list" where
  "Fields_from [] cur = (if cur = [] then [] else [cur])"
| "Fields_from (c # cs) cur =
    (if 0 < spaceLen (c # cs)
     then (if cur = [] then [] else [cur]) @ Fields_from (drop (spaceLen (c # cs)) (c # cs)) []
     else Fields_from cs (cur @ [c]))"
  by pat_completeness auto
termination
  by (relation "measure (\<lambda>(s, cur). length s)") auto

definition Fields :: "string \<Rightarrow> string list" where
  "Fields s = Fields_from s []"

section \<open>Module identifiers, errors and the process state\<close>

record module_Version =
  mod_Path :: string
  mod_Version :: string

datatype error =
    errNotCached
  | NotExist string
  | IOError string
  | Errorf string

fun Error :: "error \<Rightarrow> string" where
  "Error errNotCached = ''not in cache''"
| "Error (NotExist p) = ''open '' @ p @ '': no such file or directory''"
| "Error (IOError e) = e"
| "Error (Errorf e) = e"

record RevInfo =
  Version :: string
  Name :: string
  Short :: string
  Time :: string

text \<open>
  The backend \<open>Repo\<close> behind a facade. Its answers may change from call to call, so
  each operation also takes the number of backend calls made before it. \<open>GoMod\<close>
  returns bytes and an error side by side, as the Go method does; \<open>Zip\<close> answers
  with the name of the temporary file it created and the bytes it put there.
\<close>

record Repo =
  repo_ModulePath :: string
  repo_Stat :: "nat \<Rightarrow> string \<Rightarrow> error + RevInfo"
  repo_Latest :: "nat \<Rightarrow> error + RevInfo"
  repo_GoMod :: "nat \<Rightarrow> string \<Rightarrow> string \<times> error option"
  repo_Zip :: "nat \<Rightarrow> string \<Rightarrow> string \<Rightarrow> error + (string \<times> string)"

text \<open>
  What the two source files call but do not define is a parameter of the model:
  \<open>semver.IsValid\<close>, \<open>IsPseudoVersion\<close>, \<open>module.Sort\<close>, \<open>Lookup\<close> and the
  \<open>dirhash\<close> functions of this repository, and \<open>encoding/json\<close>, \<open>archive/zip\<close>
  and \<open>os.TempDir\<close> of the standard library. \<open>dirhash_Hash1\<close> takes the files as
  pairs of name and content; \<open>zip_OpenReader\<close> and \<open>dirhash_HashZip\<close> take the bytes of
  the archive; \<open>zip_OpenReader\<close> answers with the names of the entries.
\<close>

record env =
  semver_IsValid :: "string \<Rightarrow> bool"
  IsPseudoVersion :: "string \<Rightarrow> bool"
  json_Unmarshal :: "string \<Rightarrow> RevInfo option"
  json_Marshal :: "RevInfo \<Rightarrow> error + string"
  dirhash_Hash1 :: "(string \<times> string) list \<Rightarrow> error + string"
  dirhash_HashZip :: "string \<Rightarrow> error + string"
  zip_OpenReader :: "string \<Rightarrow> error + string list"
  module_Sort :: "module_Version list \<Rightarrow> module_Version list"
  Lookup :: "string \<Rightarrow> error + Repo"
  TempDir :: string

text \<open>
  The file system holds regular files by full name, in directory order. A node that
  exists but cannot be read (a directory, a file without permission) is \<open>NoAccess\<close>
  with the text of the error. \<open>disk_fault\<close> is the environment's choice of the step at
  which writing a given file fails, if any.
\<close>

datatype fnode = Content string | NoAccess string

datatype wstage = CreateFails | WriteFails | CloseFails

datatype call =
    BackendStat string string
  | BackendLatest string
  | BackendGoMod string string
  | BackendZip string string

type_synonym sumMap = "(module_Version \<times> string list) list"

record world =
  GoSumFile :: string
  SrcMod :: string
  QuietLookup :: bool
  goSum_m :: "sumMap option"
  goSum_enabled :: bool
  goSum_modverify :: string
  disk :: "(string \<times> fnode) list"
  disk_fault :: "string \<Rightarrow> wstage option"
  stderr :: "string list"
  backend_calls :: "call list"

text \<open>
  A call returns, or the process ends: \<open>Fatal\<close> after \<open>base.Fatalf\<close> (no deferred call
  runs), \<open>Panic\<close> after a run-time panic. Each carries the state it leaves.
\<close>

datatype 'a res = Done 'a world | Fatal world | Panic world

definition then_do :: "'a res \<Rightarrow> ('a \<Rightarrow> world \<Rightarrow> 'b res) \<Rightarrow> 'b res" where
  "then_do r k = (case r of Done a w \<Rightarrow> k a w | Fatal w \<Rightarrow> Fatal w | Panic w \<Rightarrow> Panic w)"

text \<open>
  Modelled from the spec: \<open>base.Fatalf\<close> (package \<open>cmd/go/internal/base\<close>) is not among
  the sources. The specification has a fatal error terminate the process with a
  diagnostic: the message goes to the standard error stream and the process ends.
\<close>

definition Fatalf :: "string \<Rightarrow> world \<Rightarrow> 'a res" where
  "Fatalf msg w = Fatal (w\<lparr>stderr := stderr w @ [msg]\<rparr>)"

definition Fprintf_Stderr :: "string \<Rightarrow> world \<Rightarrow> world" where
  "Fprintf_Stderr msg w = w\<lparr>stderr := stderr w @ [msg]\<rparr>"

definition ReadFile :: "world \<Rightarrow> string \<Rightarrow> error + string" where
  "ReadFile w p =
    (case map_of (disk w) p of
       None \<Rightarrow> Inl (NotExist p)
     | Some (NoAccess e) \<Rightarrow> Inl (IOError e)
     | Some (Content d) \<Rightarrow> Inr d)"

fun IsNotExist :: "error \<Rightarrow> bool" where
  "IsNotExist (NotExist p) = True"
| "IsNotExist e = False"

text \<open>
  \<open>ioutil.WriteFile\<close> creates or truncates the file, writes and closes. A failure at
  creation leaves the disk as it was, a failed write leaves the truncated file (the bytes
  written so far are modelled as none), a failed close leaves the bytes written.
\<close>

definition WriteFile :: "string \<Rightarrow> string \<Rightarrow> world \<Rightarrow> error option \<times> world" where
  "WriteFile p data w =
    (case disk_fault w p of
       None \<Rightarrow> (None, w\<lparr>disk := AList.update p (Content data) (disk w)\<rparr>)
     | Some CreateFails \<Rightarrow> (Some (IOError (''open '' @ p @ '': permission denied'')), w)
     | Some WriteFails \<Rightarrow>
         (Some (IOError (''write '' @ p @ '': no space left on device'')),
          w\<lparr>disk := AList.update p (Content []) (disk w)\<rparr>)
     | Some CloseFails \<Rightarrow>
         (Some (IOError (''close '' @ p @ '': input/output error'')),
          w\<lparr>disk := AList.update p (Content data) (disk w)\<rparr>))"

definition Remove :: "string \<Rightarrow> world \<Rightarrow> world" where
  "Remove p w = w\<lparr>disk := AList.delete p (disk w)\<rparr>"

section \<open>The go.sum store\<close>

text \<open>
  \<open>goSum.m\<close> is a Go map from module versions to hash lists: an association list with
  one entry per key, whose order stands for the order in which \<open>range\<close> happens to
  visit the keys. Reading an absent key, or any key of the nil map, gives the nil slice;
  assigning into the nil map panics.
\<close>

definition m_get :: "sumMap option \<Rightarrow> module_Version \<Rightarrow> string list" where
  "m_get m k = (case m of None \<Rightarrow> [] | Some al \<Rightarrow> (case map_of al k of None \<Rightarrow> [] | Some l \<Rightarrow> l))"

definition m_put :: "sumMap \<Rightarrow> module_Version \<Rightarrow> string list \<Rightarrow> sumMap" where
  "m_put al k l = AList.update k l al"

datatype 'a attempt = Ok 'a | Die string | Crash

definition cut_line :: "string \<Rightarrow> string \<times> string" where
  "cut_line data = (takeWhile (\<lambda>c. c \<noteq> NL) data, drop 1 (dropWhile (\<lambda>c. c \<noteq> NL) data))"

function readGoSum_loop :: "string \<Rightarrow> nat \<Rightarrow> string \<Rightarrow> sumMap option \<Rightarrow> sumMap option attempt" where
  "readGoSum_loop file lineno data m =
    (if \<not> 0 < length data then Ok m
     else (case Fields (fst (cut_line data)) of
        [] \<Rightarrow> readGoSum_loop file (lineno + 1) (snd (cut_line data)) m
      | [f0, f1, f2] \<Rightarrow>
          (case m of
             None \<Rightarrow> Crash
           | Some al \<Rightarrow>
               readGoSum_loop file (lineno + 1) (snd (cut_line data))
                 (Some (m_put al \<lparr>mod_Path = f0, mod_Version = f1\<rparr>
                          (m_get m \<lparr>mod_Path = f0, mod_Version = f1\<rparr> @ [f2]))))
      | f \<Rightarrow> Die (''vgo: malformed go.sum:'' @ [NL] @ file @ '':'' @ show_nat (lineno + 1)
                   @ '': wrong number of fields '' @ show_nat (length f))))"
  by pat_completeness auto
termination
proof (relation "measure (\<lambda>(file, lineno, data, m). length data)")
  show "wf (measure (\<lambda>(file, lineno, data, m). length data))" by simp
next
  fix fl :: string and lineno :: nat and data :: string and m :: "sumMap option"
  assume "\<not> \<not> 0 < length data"
  moreover have "length (dropWhile (\<lambda>c. c \<noteq> NL) data) \<le> length data"
    by (rule length_dropWhile_le)
  ultimately have "length (snd (cut_line data)) < length data"
    unfolding cut_line_def snd_conv length_drop by linarith
  then show "((fl, lineno + 1, snd (cut_line data), m), fl, lineno, data, m)
      \<in> measure (\<lambda>(file, lineno, data, m). length data)"
    by simp
next
  fix fl :: string and lineno :: nat and data :: string and m :: "sumMap option"
    and al :: sumMap and nm :: "sumMap option"
  assume "\<not> \<not> 0 < length data"
  moreover have "length (dropWhile (\<lambda>c. c \<noteq> NL) data) \<le> length data"
    by (rule length_dropWhile_le)
  ultimately have "length (snd (cut_line data)) < length data"
    unfolding cut_line_def snd_conv length_drop by linarith
  then show "((fl, lineno + 1, snd (cut_line data), nm), fl, lineno, data, m)
      \<in> measure (\<lambda>(file, lineno, data, m). length data)"
    by simp
qed

definition readGoSum :: "string \<Rightarrow> string \<Rightarrow> world \<Rightarrow> unit res" where
  "readGoSum file data w =
    (case readGoSum_loop file 0 data (goSum_m w) of
       Ok m \<Rightarrow> Done () (w\<lparr>goSum_m := m\<rparr>)
     | Die msg \<Rightarrow> Fatalf msg w
     | Crash \<Rightarrow> Panic w)"

definition initGoSum :: "world \<Rightarrow> bool res" where
  "initGoSum w =
    (if GoSumFile w = [] then Done False w
     else if goSum_m w \<noteq> None then Done True w
     else if (case ReadFile w (GoSumFile w) of Inl e \<Rightarrow> \<not> IsNotExist e | Inr d \<Rightarrow> False)
       then Fatalf (''vgo: '' @ (case ReadFile w (GoSumFile w) of Inl e \<Rightarrow> Error e | Inr d \<Rightarrow> []))
              (w\<lparr>goSum_m := Some []\<rparr>)
     else then_do (readGoSum (GoSumFile w)
                     (case ReadFile w (GoSumFile w) of Inl e \<Rightarrow> [] | Inr d \<Rightarrow> d)
                     (w\<lparr>goSum_m := Some [], goSum_enabled := True\<rparr>))
            (\<lambda>u w1.
               (case ReadFile w1 (TrimSuffix (GoSumFile w1) ''.sum'' @ ''.modverify'') of
                  Inr d \<Rightarrow>
                    then_do (readGoSum (TrimSuffix (GoSumFile w1) ''.sum'' @ ''.modverify'') d w1)
                      (\<lambda>u w2. Done True
                         (w2\<lparr>goSum_modverify := TrimSuffix (GoSumFile w1) ''.sum'' @ ''.modverify''\<rparr>))
                | Inl e \<Rightarrow> Done True w1)))"

datatype verdict = Verified | Mismatch string | Unknown

fun checkOneSum_loop :: "string \<Rightarrow> string list \<Rightarrow> verdict" where
  "checkOneSum_loop h [] = Unknown"
| "checkOneSum_loop h (vh # vhs) =
    (if h = vh then Verified
     else if HasPrefix vh ''h1:'' then Mismatch vh
     else checkOneSum_loop h vhs)"

definition mismatch_msg :: "module_Version \<Rightarrow> string \<Rightarrow> string \<Rightarrow> string" where
  "mismatch_msg mv h vh =
    ''vgo: verifying '' @ mod_Path mv @ ''@'' @ mod_Version mv @ '': checksum mismatch''
      @ [NL, TAB] @ ''downloaded: '' @ h @ [NL, TAB] @ ''go.sum:     '' @ vh"

definition unknown_msg :: "module_Version \<Rightarrow> string list \<Rightarrow> string \<Rightarrow> string" where
  "unknown_msg mv vhs h =
    ''warning: verifying '' @ mod_Path mv @ ''@'' @ mod_Version mv @ '': unknown hashes in go.sum: ''
      @ strings_Join vhs '', '' @ ''; adding '' @ h"

definition checkOneSum :: "module_Version \<Rightarrow> string \<Rightarrow> world \<Rightarrow> unit res" where
  "checkOneSum mv h w =
    then_do (initGoSum w)
      (\<lambda>ok w1.
         if \<not> ok then Done () w1
         else (case checkOneSum_loop h (m_get (goSum_m w1) mv) of
            Verified \<Rightarrow> Done () w1
          | Mismatch vh \<Rightarrow> Fatalf (mismatch_msg mv h vh) w1
          | Unknown \<Rightarrow>
              (case goSum_m (if 0 < length (m_get (goSum_m w1) mv)
                             then Fprintf_Stderr (unknown_msg mv (m_get (goSum_m w1) mv) h) w1
                             else w1) of
                 None \<Rightarrow> Panic (if 0 < length (m_get (goSum_m w1) mv)
                                 then Fprintf_Stderr (unknown_msg mv (m_get (goSum_m w1) mv) h) w1
                                 else w1)
               | Some al \<Rightarrow>
                   Done () ((if 0 < length (m_get (goSum_m w1) mv)
                             then Fprintf_Stderr (unknown_msg mv (m_get (goSum_m w1) mv) h) w1
                             else w1)\<lparr>goSum_m := Some (m_put al mv (m_get (goSum_m w1) mv @ [h]))\<rparr>))))"

text \<open>
  WriteGoSum. \<open>sort.Strings(list)\<close> sorts the slice stored in the map in place, so the
  store itself ends with every visited hash list sorted.
\<close>

definition WriteGoSum_buf :: "sumMap \<Rightarrow> module_Version list \<Rightarrow> string" where
  "WriteGoSum_buf al mods =
    concat (map (\<lambda>mv. concat (map (\<lambda>h. mod_Path mv @ '' '' @ mod_Version mv @ '' '' @ h @ [NL])
                                  (sort (m_get (Some al) mv)))) mods)"

definition sort_visited :: "module_Version list \<Rightarrow> sumMap \<Rightarrow> sumMap" where
  "sort_visited mods al = map (\<lambda>(k, l). if k \<in> set mods then (k, sort l) else (k, l)) al"

definition remove_modverify :: "world \<Rightarrow> world" where
  "remove_modverify w = (if goSum_modverify w \<noteq> [] then Remove (goSum_modverify w) w else w)"

definition WriteGoSum :: "env \<Rightarrow> world \<Rightarrow> unit res" where
  "WriteGoSum E w =
    then_do (initGoSum w)
      (\<lambda>ok w1.
         if \<not> ok then Done () w1
         else (case goSum_m w1 of
            None \<Rightarrow> Panic w1
          | Some al \<Rightarrow>
              (if (case ReadFile w1 (GoSumFile w1) of Inl e \<Rightarrow> [] | Inr d \<Rightarrow> d)
                    \<noteq> WriteGoSum_buf al (module_Sort E (map fst al))
               then (case WriteFile (GoSumFile w1) (WriteGoSum_buf al (module_Sort E (map fst al)))
                            (w1\<lparr>goSum_m := Some (sort_visited (module_Sort E (map fst al)) al)\<rparr>) of
                       (Some err, w2) \<Rightarrow> Fatalf (''vgo: writing go.sum: '' @ Error err) w2
                     | (None, w2) \<Rightarrow> Done () (remove_modverify w2))
               else Done () (remove_modverify
                      (w1\<lparr>goSum_m := Some (sort_visited (module_Sort E (map fst al)) al)\<rparr>)))))"

text \<open>
  The lockfile seen as a list of entries, one per line: a module version and a hash.
\<close>

definition line_of :: "module_Version \<times> string \<Rightarrow> string" where
  "line_of e = mod_Path (fst e) @ '' '' @ mod_Version (fst e) @ '' '' @ snd e @ [NL]"

definition add_entry :: "module_Version \<times> string \<Rightarrow> sumMap \<Rightarrow> sumMap" where
  "add_entry e al = m_put al (fst e) (m_get (Some al) (fst e) @ [snd e])"

definition entries_of :: "sumMap \<Rightarrow> module_Version list \<Rightarrow> (module_Version \<times> string) list" where
  "entries_of al mods = concat (map (\<lambda>mv. map (Pair mv) (sort (m_get (Some al) mv))) mods)"

text \<open>
  A well-formed field of a lockfile line (a module path, a version, a hash): not empty,
  and made of ASCII characters other than white space.
\<close>

definition field_ok :: "string \<Rightarrow> bool" where
  "field_ok s = (s \<noteq> [] \<and> (\<forall>c\<in>set s. \<not> asciiSpace c \<and> (of_char c :: nat) < 128))"

definition sumMap_ok :: "sumMap \<Rightarrow> bool" where
  "sumMap_ok al =
    (distinct (map fst al)
     \<and> (\<forall>(k, l)\<in>set al. field_ok (mod_Path k) \<and> field_ok (mod_Version k)
                          \<and> l \<noteq> [] \<and> (\<forall>h\<in>set l. field_ok h)))"

section \<open>File names\<close>

text \<open>
  \<open>path/filepath\<close> on a system whose separator is the slash. \<open>Clean\<close> works on the
  elements between slashes: empty elements and \<open>.\<close> are dropped, \<open>..\<close> removes the
  element before it, is dropped at the root, and is kept at the start of a relative name.
\<close>

fun split_slash :: "string \<Rightarrow> string \<Rightarrow> string list" where
  "split_slash [] cur = [cur]"
| "split_slash (c # cs) cur =
    (if c = CHR ''/'' then cur # split_slash cs [] else split_slash cs (cur @ [c]))"

definition clean_step :: "bool \<Rightarrow> string list \<Rightarrow> string \<Rightarrow> string list" where
  "clean_step rooted out el =
    (if el = [] \<or> el = ''.'' then out
     else if el = ''..'' then
       (if out \<noteq> [] \<and> last out \<noteq> ''..'' then butlast out
        else if rooted then out
        else out @ [''..''])
     else out @ [el])"

definition Clean :: "string \<Rightarrow> string" where
  "Clean p =
    (if p = [] then ''.''
     else if hd p = CHR ''/''
       then ''/'' @ strings_Join (foldl (clean_step True) [] (split_slash p [])) ''/''
     else if foldl (clean_step False) [] (split_slash p []) = [] then ''.''
     else strings_Join (foldl (clean_step False) [] (split_slash p [])) ''/'')"

definition Join :: "string list \<Rightarrow> string" where
  "Join elem =
    (if dropWhile (\<lambda>e. e = []) elem = [] then []
     else Clean (strings_Join (dropWhile (\<lambda>e. e = []) elem) ''/''))"

definition Dir :: "string \<Rightarrow> string" where
  "Dir p = Clean (rev (dropWhile (\<lambda>c. c \<noteq> CHR ''/'') (rev p)))"

definition Base :: "string \<Rightarrow> string" where
  "Base p =
    (if p = [] then ''.''
     else if rev (takeWhile (\<lambda>c. c \<noteq> CHR ''/'') (dropWhile (\<lambda>c. c = CHR ''/'') (rev p))) = []
       then ''/''
     else rev (takeWhile (\<lambda>c. c \<noteq> CHR ''/'') (dropWhile (\<lambda>c. c = CHR ''/'') (rev p))))"


section \<open>The disk cache\<close>

definition Readdirnames :: "world \<Rightarrow> string \<Rightarrow> string list option" where
  "Readdirnames w dir =
    (if map (\<lambda>e. Base (fst e)) (filter (\<lambda>e. Dir (fst e) = dir) (disk w)) = [] then None
     else Some (map (\<lambda>e. Base (fst e)) (filter (\<lambda>e. Dir (fst e) = dir) (disk w))))"

text \<open>
  Modelled from the spec: \<open>codehost.AllHex\<close> (package
  \<open>cmd/go/internal/modfetch/codehost\<close>) is not among the sources. The specification
  asks for a revision that is entirely hexadecimal, the form of a commit hash: every
  character is a digit or a lower-case letter from a to f.
\<close>

definition AllHex :: "string \<Rightarrow> bool" where
  "AllHex rv = list_all (\<lambda>c. c \<in> set ''0123456789abcdef'') rv"

definition readDiskCache :: "env \<Rightarrow> world \<Rightarrow> string \<Rightarrow> string \<Rightarrow> string \<Rightarrow> string \<times> (error + string)" where
  "readDiskCache E w path rv suffix =
    (if \<not> semver_IsValid E rv \<or> SrcMod w = [] then ([], Inl errNotCached)
     else (case ReadFile w (Join [SrcMod w, ''cache/download'', path, ''@v'', rv @ ''.'' @ suffix]) of
        Inl e \<Rightarrow> (Join [SrcMod w, ''cache/download'', path, ''@v'', rv @ ''.'' @ suffix],
                  Inl errNotCached)
      | Inr data \<Rightarrow> (Join [SrcMod w, ''cache/download'', path, ''@v'', rv @ ''.'' @ suffix],
                     Inr data)))"

function readDiskStat :: "env \<Rightarrow> world \<Rightarrow> string \<Rightarrow> string \<Rightarrow> string \<times> (error + RevInfo)"
  and readDiskStatByHash :: "env \<Rightarrow> world \<Rightarrow> string \<Rightarrow> string \<Rightarrow> string \<times> (error + RevInfo)"
where
  "readDiskStat E w path rv =
    (case snd (readDiskCache E w path rv ''info'') of
       Inl err \<Rightarrow>
         (case snd (readDiskStatByHash E w path rv) of
            Inr info \<Rightarrow> readDiskStatByHash E w path rv
          | Inl err' \<Rightarrow> (fst (readDiskCache E w path rv ''info''), Inl err))
     | Inr data \<Rightarrow>
         (case json_Unmarshal E data of
            None \<Rightarrow> (fst (readDiskCache E w path rv ''info''), Inl errNotCached)
          | Some info \<Rightarrow> (fst (readDiskCache E w path rv ''info''), Inr info)))"
| "readDiskStatByHash E w path rv =
    (if \<not> AllHex rv \<or> length rv < 12 then ([], Inl errNotCached)
     else (case Readdirnames w (Join [SrcMod w, ''cache/download'', path, ''@v'']) of
        None \<Rightarrow> ([], Inl errNotCached)
      | Some names \<Rightarrow>
          (case find (\<lambda>name. HasSuffix name (''-'' @ take 12 rv @ ''.info'')
                              \<and> IsPseudoVersion E (TrimSuffix name ''.info'')) names of
             None \<Rightarrow> ([], Inl errNotCached)
           | Some name \<Rightarrow> readDiskStat E w path (TrimSuffix name ''.info''))))"
  by pat_completeness auto
termination
proof (relation "measure (\<lambda>x. case x of
          Inl (E, w, path, rv) \<Rightarrow> 2 * (if AllHex rv then 1 else 0) + 1
        | Inr (E, w, path, rv) \<Rightarrow> 2 * (if AllHex rv then 1 else 0))")
  show "wf (measure (\<lambda>x. case x of
          Inl (E, w, path, rv) \<Rightarrow> 2 * (if AllHex rv then 1 else 0) + 1
        | Inr (E, w, path, rv) \<Rightarrow> 2 * (if AllHex rv then 1 else (0::nat))))"
    by simp
next
  fix E :: env and w :: world and path rv :: string and names :: "string list" and name :: string
  assume hex: "\<not> (\<not> AllHex rv \<or> length rv < 12)"
    and f: "find (\<lambda>name. HasSuffix name (''-'' @ take 12 rv @ ''.info'')
                          \<and> IsPseudoVersion E (TrimSuffix name ''.info'')) names = Some name"
  from f have suf: "HasSuffix name (''-'' @ take 12 rv @ ''.info'')"
    by (auto simp: find_Some_iff)
  then have "name = take (length name - length (''-'' @ take 12 rv @ ''.info'')) name
                     @ (''-'' @ take 12 rv @ ''.info'')"
    unfolding HasSuffix_def by (metis append_take_drop_id)
  then obtain pre where name: "name = pre @ ''-'' @ take 12 rv @ ''.info''"
    by blast
  have "TrimSuffix (a @ s) s = a" for a s :: string
    by (simp add: TrimSuffix_def HasSuffix_def)
  from this [of "pre @ ''-'' @ take 12 rv" "''.info''"]
  have "TrimSuffix name ''.info'' = pre @ ''-'' @ take 12 rv"
    by (simp add: name)
  then have "\<not> AllHex (TrimSuffix name ''.info'')"
    by (simp add: AllHex_def)
  with hex show "(Inl (E, w, path, TrimSuffix name ''.info''), Inr (E, w, path, rv))
      \<in> measure (\<lambda>x. case x of
          Inl (E, w, path, rv) \<Rightarrow> 2 * (if AllHex rv then 1 else 0) + 1
        | Inr (E, w, path, rv) \<Rightarrow> 2 * (if AllHex rv then 1 else 0))"
    by simp
qed simp_all


text \<open>
  writeDiskCache writes a temporary file beside the target and renames it onto the
  target; the deferred \<open>os.Remove\<close> takes the temporary file away whichever step fails.
  So a failed write leaves the files as they were, and a successful one puts the data
  under the target name. Directories are not tracked.
\<close>

definition writeDiskCache :: "string \<Rightarrow> string \<Rightarrow> world \<Rightarrow> error option \<times> world" where
  "writeDiskCache file data w =
    (if file = [] then (None, w)
     else (case disk_fault w file of
        Some st \<Rightarrow> (Some (IOError (''write '' @ file @ '': input/output error'')), w)
      | None \<Rightarrow> (None, w\<lparr>disk := AList.update file (Content data) (disk w)\<rparr>)))"

definition writeDiskStat :: "env \<Rightarrow> string \<Rightarrow> RevInfo \<Rightarrow> world \<Rightarrow> error option \<times> world" where
  "writeDiskStat E file info w =
    (if file = [] then (None, w)
     else (case json_Marshal E info of
        Inl err \<Rightarrow> (Some err, w)
      | Inr js \<Rightarrow> writeDiskCache file js w))"

definition writeDiskGoMod :: "string \<Rightarrow> string \<Rightarrow> world \<Rightarrow> error option \<times> world" where
  "writeDiskGoMod file txt w = writeDiskCache file txt w"

definition checkGoMod :: "env \<Rightarrow> string \<Rightarrow> string \<Rightarrow> string \<Rightarrow> world \<Rightarrow> unit res" where
  "checkGoMod E path version data w =
    (case dirhash_Hash1 E [(''go.mod'', data)] of
       Inl err \<Rightarrow>
         Fatalf (''vgo: verifying '' @ path @ '' '' @ version @ '' go.mod: '' @ Error err) w
     | Inr h \<Rightarrow> checkOneSum \<lparr>mod_Path = path, mod_Version = version @ ''/go.mod''\<rparr> h w)"

definition oldVgoPrefix :: string where
  "oldVgoPrefix = ''//vgo 0.0.''"

definition readDiskGoMod ::
    "env \<Rightarrow> string \<Rightarrow> string \<Rightarrow> world \<Rightarrow> (string \<times> string \<times> error option) res" where
  "readDiskGoMod E path rv w =
    (case readDiskCache E w path rv ''mod'' of
       (file, Inl err) \<Rightarrow>
         (if HasPrefix [] oldVgoPrefix then Done (file, [], Some errNotCached) w
          else Done (file, [], Some err) w)
     | (file, Inr data) \<Rightarrow>
         (if HasPrefix data oldVgoPrefix then Done (file, [], Some errNotCached) w
          else then_do (checkGoMod E path rv data w) (\<lambda>u w1. Done (file, data, None) w1)))"

section \<open>The caching facade\<close>

text \<open>
  Modelled from the spec: \<open>par.Cache\<close> (package \<open>cmd/go/internal/par\<close>) is not among the
  sources. The specification has the producer of a key run at most once and its result
  stay for good: \<open>Do\<close> answers with the stored value when the key has one, and otherwise
  runs the producer, which may itself store other keys, and stores what it returns.
\<close>

datatype cacheval = cachedInfo "error + RevInfo" | cachedText string "error option"

type_synonym cache = "string \<Rightarrow> cacheval option"

definition Do ::
    "string \<Rightarrow> (cache \<Rightarrow> world \<Rightarrow> (cacheval \<times> cache) res) \<Rightarrow> cache \<Rightarrow> world
      \<Rightarrow> (cacheval \<times> cache) res" where
  "Do key f c w =
    (case c key of
       Some v \<Rightarrow> Done (v, c) w
     | None \<Rightarrow> then_do (f c w) (\<lambda>vc w1. Done (fst vc, (snd vc)(key \<mapsto> fst vc)) w1))"

record cachingRepo =
  cr_path :: string
  cr_r :: Repo

definition log_call :: "call \<Rightarrow> world \<Rightarrow> world" where
  "log_call x w = w\<lparr>backend_calls := backend_calls w @ [x]\<rparr>"

definition announce :: "string \<Rightarrow> world \<Rightarrow> world" where
  "announce msg w = (if \<not> QuietLookup w then Fprintf_Stderr msg w else w)"

definition report :: "string \<Rightarrow> error option \<Rightarrow> world \<Rightarrow> world" where
  "report what werr w =
    (case werr of
       Some err \<Rightarrow> Fprintf_Stderr (''go: writing '' @ what @ '' cache: '' @ Error err @ [NL]) w
     | None \<Rightarrow> w)"

text \<open>The function handed to \<open>r.cache.Do\<close> in \<open>Stat\<close>.\<close>

definition Stat_func :: "env \<Rightarrow> cachingRepo \<Rightarrow> string \<Rightarrow> cache \<Rightarrow> world \<Rightarrow> (cacheval \<times> cache) res" where
  "Stat_func E r rv c w =
    (case readDiskStat E w (cr_path r) rv of
       (file, Inr info) \<Rightarrow> Done (cachedInfo (Inr info), c) w
     | (file, Inl e) \<Rightarrow>
         (case repo_Stat (cr_r r)
                 (length (backend_calls (announce (''vgo: finding '' @ cr_path r @ '' '' @ rv @ [NL]) w))) rv of
            Inr info \<Rightarrow>
              (case writeDiskStat E file info
                      (log_call (BackendStat (cr_path r) rv)
                         (announce (''vgo: finding '' @ cr_path r @ '' '' @ rv @ [NL]) w)) of
                 (werr, w1) \<Rightarrow>
                   (if Version info \<noteq> rv
                    then then_do (Do (''stat:'' @ Version info)
                                    (\<lambda>c2 w2. Done (cachedInfo (Inr info), c2) w2) c
                                    (report ''stat'' werr w1))
                           (\<lambda>vc w3. Done (cachedInfo (Inr info), snd vc) w3)
                    else Done (cachedInfo (Inr info), c) (report ''stat'' werr w1)))
          | Inl err \<Rightarrow>
              Done (cachedInfo (Inl err), c)
                (log_call (BackendStat (cr_path r) rv)
                   (announce (''vgo: finding '' @ cr_path r @ '' '' @ rv @ [NL]) w))))"

definition unpack_info :: "cacheval \<times> cache \<Rightarrow> world \<Rightarrow> ((error + RevInfo) \<times> cache) res" where
  "unpack_info vc w =
    (case fst vc of
       cachedInfo (Inl err) \<Rightarrow> Done (Inl err, snd vc) w
     | cachedInfo (Inr info) \<Rightarrow> Done (Inr info, snd vc) w
     | cachedText t e \<Rightarrow> Panic w)"

definition cachingRepo_Stat ::
    "env \<Rightarrow> cachingRepo \<Rightarrow> string \<Rightarrow> cache \<Rightarrow> world \<Rightarrow> ((error + RevInfo) \<times> cache) res" where
  "cachingRepo_Stat E r rv c w = then_do (Do (''stat:'' @ rv) (Stat_func E r rv) c w) unpack_info"

definition Latest_func :: "env \<Rightarrow> cachingRepo \<Rightarrow> cache \<Rightarrow> world \<Rightarrow> (cacheval \<times> cache) res" where
  "Latest_func E r c w =
    (case repo_Latest (cr_r r)
            (length (backend_calls (announce (''vgo: finding '' @ cr_path r @ '' latest'' @ [NL]) w))) of
       Inr info \<Rightarrow>
         then_do (Do (''stat:'' @ Version info) (\<lambda>c2 w2. Done (cachedInfo (Inr info), c2) w2) c
                    (log_call (BackendLatest (cr_path r))
                       (announce (''vgo: finding '' @ cr_path r @ '' latest'' @ [NL]) w)))
           (\<lambda>vc w3.
              (case readDiskStat E w3 (cr_path r) (Version info) of
                 (file, Inl e) \<Rightarrow>
                   Done (cachedInfo (Inr info), snd vc) (snd (writeDiskStat E file info w3))
               | (file, Inr i) \<Rightarrow> Done (cachedInfo (Inr info), snd vc) w3))
     | Inl err \<Rightarrow>
         Done (cachedInfo (Inl err), c)
           (log_call (BackendLatest (cr_path r))
              (announce (''vgo: finding '' @ cr_path r @ '' latest'' @ [NL]) w)))"

definition cachingRepo_Latest ::
    "env \<Rightarrow> cachingRepo \<Rightarrow> cache \<Rightarrow> world \<Rightarrow> ((error + RevInfo) \<times> cache) res" where
  "cachingRepo_Latest E r c w = then_do (Do ''latest:'' (Latest_func E r) c w) unpack_info"

definition GoMod_func :: "env \<Rightarrow> cachingRepo \<Rightarrow> string \<Rightarrow> cache \<Rightarrow> world \<Rightarrow> (cacheval \<times> cache) res" where
  "GoMod_func E r rv c w =
    then_do (readDiskGoMod E (cr_path r) rv w)
      (\<lambda>rd w1.
         if snd (snd rd) = None then Done (cachedText (fst (snd rd)) None, c) w1
         else then_do (cachingRepo_Stat E r rv c w1)
           (\<lambda>st w2.
              (case fst st of
                 Inl err \<Rightarrow> Done (cachedText [] (Some err), snd st) w2
               | Inr info \<Rightarrow>
                   then_do (checkGoMod E (cr_path r) (Version info)
                              (fst (repo_GoMod (cr_r r) (length (backend_calls w2)) (Version info)))
                              (log_call (BackendGoMod (cr_path r) (Version info)) w2))
                     (\<lambda>u w3.
                        if snd (repo_GoMod (cr_r r) (length (backend_calls w2)) (Version info)) = None
                        then (case writeDiskGoMod (fst rd)
                                     (fst (repo_GoMod (cr_r r) (length (backend_calls w2)) (Version info))) w3 of
                                (werr, w4) \<Rightarrow>
                                  Done (cachedText
                                          (fst (repo_GoMod (cr_r r) (length (backend_calls w2)) (Version info)))
                                          None, snd st)
                                    (report ''go.mod'' werr w4))
                        else Done (cachedText
                                     (fst (repo_GoMod (cr_r r) (length (backend_calls w2)) (Version info)))
                                     (snd (repo_GoMod (cr_r r) (length (backend_calls w2)) (Version info))),
                                   snd st) w3))))"

definition unpack_text :: "cacheval \<times> cache \<Rightarrow> world \<Rightarrow> ((error + string) \<times> cache) res" where
  "unpack_text vc w =
    (case fst vc of
       cachedText t (Some err) \<Rightarrow> Done (Inl err, snd vc) w
     | cachedText t None \<Rightarrow> Done (Inr t, snd vc) w
     | cachedInfo i \<Rightarrow> Panic w)"

definition cachingRepo_GoMod ::
    "env \<Rightarrow> cachingRepo \<Rightarrow> string \<Rightarrow> cache \<Rightarrow> world \<Rightarrow> ((error + string) \<times> cache) res" where
  "cachingRepo_GoMod E r rv c w = then_do (Do (''gomod:'' @ rv) (GoMod_func E r rv) c w) unpack_text"


section \<open>Downloading a zip file\<close>

text \<open>
  \<open>os.Create\<close>, \<open>io.Copy\<close> and \<open>Close\<close> on the target, with the step at which the
  environment lets them fail. A failed copy leaves the created file with the bytes written
  so far, modelled as none.
\<close>

definition install_zip :: "string \<Rightarrow> string \<Rightarrow> world \<Rightarrow> error option \<times> world" where
  "install_zip target data w =
    (case disk_fault w target of
       Some CreateFails \<Rightarrow> (Some (IOError (''open '' @ target @ '': permission denied'')), w)
     | Some WriteFails \<Rightarrow>
         (Some (Errorf (''copying: write '' @ target @ '': no space left on device'')),
          w\<lparr>disk := AList.update target (Content []) (disk w)\<rparr>)
     | Some CloseFails \<Rightarrow>
         (Some (IOError (''close '' @ target @ '': input/output error'')),
          w\<lparr>disk := AList.update target (Content data) (disk w)\<rparr>)
     | None \<Rightarrow> (None, w\<lparr>disk := AList.update target (Content data) (disk w)\<rparr>))"

definition read_then :: "world \<Rightarrow> string \<Rightarrow> (string \<Rightarrow> error + 'a) \<Rightarrow> error + 'a" where
  "read_then w p f = (case ReadFile w p of Inl err \<Rightarrow> Inl err | Inr data \<Rightarrow> f data)"

text \<open>
  The part of downloadZip after \<open>repo.Zip\<close> has answered with the temporary file, which
  the deferred \<open>os.Remove\<close> deletes on every return and on a panic, but not when
  \<open>base.Fatalf\<close> ends the process. When the archive cannot be opened the source calls
  \<open>Close\<close> on the nil reader, which panics.
\<close>

definition downloadZip_tmp :: "env \<Rightarrow> module_Version \<Rightarrow> string \<Rightarrow> string \<Rightarrow> world \<Rightarrow> error option res" where
  "downloadZip_tmp E mv target tmpfile w =
    (case read_then w tmpfile (zip_OpenReader E) of
       Inl err \<Rightarrow> Panic (Remove tmpfile w)
     | Inr names \<Rightarrow>
         (case find (\<lambda>n. \<not> HasPrefix n (mod_Path mv @ ''@'' @ mod_Version mv)) names of
            Some n \<Rightarrow>
              Done (Some (Errorf (''zip for '' @ butlast (mod_Path mv @ ''@'' @ mod_Version mv)
                                  @ '' has unexpected file '' @ n)))
                (Remove tmpfile w)
          | None \<Rightarrow>
              (case read_then w tmpfile (dirhash_HashZip E) of
                 Inl err \<Rightarrow> Done (Some err) (Remove tmpfile w)
               | Inr hash \<Rightarrow>
                   then_do (checkOneSum mv hash w)
                     (\<lambda>u w1.
                        (case ReadFile w1 tmpfile of
                           Inl err \<Rightarrow> Done (Some err) (Remove tmpfile w1)
                         | Inr data \<Rightarrow>
                             (case install_zip target data w1 of
                                (Some err, w2) \<Rightarrow> Done (Some err) (Remove tmpfile w2)
                              | (None, w2) \<Rightarrow>
                                  (case WriteFile (target @ ''hash'') hash w2 of
                                     (err, w3) \<Rightarrow> Done err (Remove tmpfile w3))))))))"

definition downloadZip :: "env \<Rightarrow> module_Version \<Rightarrow> string \<Rightarrow> world \<Rightarrow> error option res" where
  "downloadZip E mv target w =
    (case Lookup E (mod_Path mv) of
       Inl err \<Rightarrow> Done (Some err) w
     | Inr repo \<Rightarrow>
         (case repo_Zip repo (length (backend_calls w)) (mod_Version mv) (TempDir E) of
            Inl err \<Rightarrow> Done (Some err) (log_call (BackendZip (mod_Path mv) (mod_Version mv)) w)
          | Inr (tmpfile, bytes) \<Rightarrow>
              downloadZip_tmp E mv target tmpfile
                ((log_call (BackendZip (mod_Path mv) (mod_Version mv)) w)
                   \<lparr>disk := AList.update tmpfile (Content bytes) (disk w)\<rparr>)))"

section \<open>Example states\<close>

text \<open>
  A stand-in environment for the examples: versions start with \<open>v\<close>, pseudo-versions
  with \<open>v0.0.0-\<close>, a RevInfo is stored as four lines, an archive is the list of its entry
  names, a hash is \<open>h1:\<close> followed by the content, and modules are sorted by path, then
  version.
\<close>

definition info0 :: RevInfo where
  "info0 = \<lparr>Version = ''v0.0.0-20200101000000-abcdef012345'',
            Name = ''abcdef0123456789abcdef0123456789abcdef01'', Short = ''abcdef012345'',
            Time = ''2020-01-01T00:00:00Z''\<rparr>"

definition info1 :: RevInfo where
  "info1 = \<lparr>Version = ''v1.0.0'', Name = ''1111111111111111111111111111111111111111'',
            Short = ''111111111111'', Time = ''2019-01-01T00:00:00Z''\<rparr>"

definition repo0 :: Repo where
  "repo0 = \<lparr>repo_ModulePath = ''m.io/a'',
      repo_Stat = (\<lambda>n rev. if rev = ''master'' \<or> rev = ''abcdef012345'' \<or> rev = Version info0
                              then Inr info0
                            else if rev = ''v1.0.0'' then Inr info1
                            else Inl (Errorf (''unknown revision '' @ rev))),
      repo_Latest = (\<lambda>n. Inr info0),
      repo_GoMod = (\<lambda>n rev. if rev = ''v1.0.0'' then (''module m.io/a'', None)
                             else ([], Some (Errorf (''no go.mod at '' @ rev)))),
      repo_Zip = (\<lambda>n version tmpdir.
          Inr (tmpdir @ ''/vgo-zip-1'',
               ''m.io/a@'' @ version @ ''/go.mod m.io/a@'' @ version @ ''/a.go''))\<rparr>"

definition repo_evil :: Repo where
  "repo_evil = \<lparr>repo_ModulePath = ''m.io/evil'',
      repo_Stat = (\<lambda>n rev. Inr info1),
      repo_Latest = (\<lambda>n. Inr info1),
      repo_GoMod = (\<lambda>n rev. (''module m.io/evil'', None)),
      repo_Zip = (\<lambda>n version tmpdir.
          Inr (tmpdir @ ''/vgo-zip-2'', ''m.io/evil@'' @ version @ ''/go.mod ../evil''))\<rparr>"

definition E0 :: env where
  "E0 = \<lparr>semver_IsValid = (\<lambda>s. HasPrefix s ''v''),
          IsPseudoVersion = (\<lambda>s. HasPrefix s ''v0.0.0-''),
          json_Unmarshal = (\<lambda>d. if fst (cut_line d) = [] then None
             else Some \<lparr>Version = fst (cut_line d),
                        Name = fst (cut_line (snd (cut_line d))),
                        Short = fst (cut_line (snd (cut_line (snd (cut_line d))))),
                        Time = snd (cut_line (snd (cut_line (snd (cut_line d)))))\<rparr>),
          json_Marshal = (\<lambda>i. Inr (Version i @ [NL] @ Name i @ [NL] @ Short i @ [NL] @ Time i)),
          dirhash_Hash1 = (\<lambda>fs. Inr (''h1:'' @ concat (map (\<lambda>(n, c). n @ ''='' @ c @ '';'') fs))),
          dirhash_HashZip = (\<lambda>d. Inr (''h1:'' @ d)),
          zip_OpenReader = (\<lambda>d. if d = [] then Inl (Errorf ''zip: not a valid zip file'')
                                 else Inr (Fields d)),
          module_Sort = sort_key (\<lambda>mv. (mod_Path mv, mod_Version mv)),
          Lookup = (\<lambda>p. if p = ''m.io/evil'' then Inr repo_evil
                         else if p = ''m.io/a'' then Inr repo0
                         else Inl (Errorf (''unknown module '' @ p))),
          TempDir = ''/tmp''\<rparr>"

definition mv0 :: module_Version where
  "mv0 = \<lparr>mod_Path = ''m.io/a'', mod_Version = ''v1.0.0''\<rparr>"

definition w0 :: world where
  "w0 = \<lparr>GoSumFile = ''/proj/go.sum'', SrcMod = ''/gopath/src/mod'', QuietLookup = True,
          goSum_m = Some [(mv0, [''h1:AAA'', ''h1:BBB''])], goSum_enabled = True,
          goSum_modverify = [], disk = [], disk_fault = (\<lambda>p. None), stderr = [],
          backend_calls = []\<rparr>"

definition wE :: world where
  "wE = w0\<lparr>goSum_m := Some []\<rparr>"

definition alS :: sumMap where
  "alS = [(mv0, [''h1:AAA'', ''h1:BBB''])]"

definition alU :: sumMap where
  "alU = [(mv0, [''h1:BBB'', ''h1:AAA''])]"

definition mvB :: module_Version where
  "mvB = \<lparr>mod_Path = ''m.io/b'', mod_Version = ''v2.0.0''\<rparr>"

definition al5 :: sumMap where
  "al5 = [(mvB, [''h1:CCC'']), (mv0, [''h1:BBB'', ''h1:AAA''])]"

definition buf5 :: string where
  "buf5 = ''m.io/a v1.0.0 h1:AAA'' @ [NL] @ ''m.io/a v1.0.0 h1:BBB'' @ [NL]
          @ ''m.io/b v2.0.0 h1:CCC'' @ [NL]"

definition w5 :: world where
  "w5 = w0\<lparr>goSum_m := Some al5, goSum_modverify := ''/proj/go.modverify'',
           disk := [(''/proj/go.sum'', Content []),
                    (''/proj/go.modverify'', Content (''m.io/b v2.0.0 h1:CCC'' @ [NL]))]\<rparr>"

text \<open>
  States for the manifest cache: a legacy manifest and a current one on disk, and a store
  that holds another hash for the current manifest.
\<close>

definition w7 :: world where
  "w7 = w0\<lparr>goSum_m := Some [],
           disk := [(''/gopath/src/mod/cache/download/m.io/a/@v/v1.0.0.mod'',
                     Content ''//vgo 0.0.1 module m.io/a''),
                    (''/gopath/src/mod/cache/download/m.io/a/@v/v1.1.0.mod'',
                     Content ''module m.io/a'')]\<rparr>"

definition w7bad :: world where
  "w7bad = w7\<lparr>goSum_m := Some [(\<lparr>mod_Path = ''m.io/a'', mod_Version = ''v1.1.0/go.mod''\<rparr>,
                                   [''h1:other''])]\<rparr>"

section \<open>Simplifier setup\<close>

text \<open>The loops are unfolded by hand, one iteration at a time.\<close>

declare readGoSum_loop.simps [simp del]

declare show_nat.simps [simp del]

declare readDiskStat.simps [simp del]

declare readDiskStatByHash.simps [simp del]

section \<open>Properties of checkOneSum\<close>

lemma checkOneSum_loop_find:
  "checkOneSum_loop h l =
    (case find (\<lambda>vh. vh = h \<or> HasPrefix vh ''h1:'') l of
       None \<Rightarrow> Unknown
     | Some vh \<Rightarrow> if vh = h then Verified else Mismatch vh)"
  by (induction l) auto

lemma initGoSum_loaded:
  "GoSumFile w \<noteq> [] \<Longrightarrow> goSum_m w = Some al \<Longrightarrow> initGoSum w = Done True w"
  by (simp add: initGoSum_def)

lemma checkOneSum_loaded:
  assumes "GoSumFile w \<noteq> []" and "goSum_m w = Some al"
  shows "checkOneSum mv h w =
    (case find (\<lambda>vh. vh = h \<or> HasPrefix vh ''h1:'') (m_get (Some al) mv) of
       Some vh \<Rightarrow> if vh = h then Done () w else Fatalf (mismatch_msg mv h vh) w
     | None \<Rightarrow>
         Done () ((if m_get (Some al) mv = [] then w
                   else Fprintf_Stderr (unknown_msg mv (m_get (Some al) mv) h) w)
                  \<lparr>goSum_m := Some (m_put al mv (m_get (Some al) mv @ [h]))\<rparr>))"
  using assms
  by (simp add: checkOneSum_def initGoSum_loaded then_do_def checkOneSum_loop_find
      Fprintf_Stderr_def split: option.splits)

text \<open>
  C1 (amended). With the store loaded and enabled, checkOneSum walks the hashes recorded
  under the module in order, and the first one that equals \<open>h\<close> or carries the prefix
  \<open>h1:\<close> decides: if it equals \<open>h\<close> the call returns with the state unchanged; if
  it is an \<open>h1:\<close> hash other than \<open>h\<close> the process ends with the mismatch
  diagnostic. When no recorded hash equals \<open>h\<close> or has the prefix, \<open>h\<close> is appended
  under the module, after a warning when the list was not empty.
\<close>

theorem checkOneSum_first_decides:
  assumes "GoSumFile w \<noteq> []" and "goSum_m w = Some al"
  shows "checkOneSum mv h w =
    (case find (\<lambda>vh. vh = h \<or> HasPrefix vh ''h1:'') (m_get (Some al) mv) of
       Some vh \<Rightarrow> if vh = h then Done () w else Fatalf (mismatch_msg mv h vh) w
     | None \<Rightarrow>
         Done () ((if m_get (Some al) mv = [] then w
                   else Fprintf_Stderr (unknown_msg mv (m_get (Some al) mv) h) w)
                  \<lparr>goSum_m := Some (m_put al mv (m_get (Some al) mv @ [h]))\<rparr>))"
  using assms by (rule checkOneSum_loaded)

theorem checkOneSum_first_decides_witness:
  "GoSumFile w0 \<noteq> [] \<and> goSum_m w0 = Some [(mv0, [''h1:AAA'', ''h1:BBB''])]
   \<and> checkOneSum mv0 ''h1:AAA'' w0 = Done () w0"
  using checkOneSum_first_decides [of w0 "[(mv0, [''h1:AAA'', ''h1:BBB''])]" mv0 "''h1:AAA''"]
  by (simp add: w0_def m_get_def)

text \<open>
  C1 as stated fails: with \<open>h1:AAA\<close> and \<open>h1:BBB\<close> recorded in this order, checking
  \<open>h1:BBB\<close> meets \<open>h1:AAA\<close> first and ends the process, although \<open>h1:BBB\<close> is
  recorded.
\<close>

theorem checkOneSum_listed_hash_counterexample:
  "''h1:BBB'' \<in> set (m_get (goSum_m w0) mv0)
   \<and> checkOneSum mv0 ''h1:BBB'' w0 = Fatalf (mismatch_msg mv0 ''h1:BBB'' ''h1:AAA'') w0
   \<and> checkOneSum mv0 ''h1:BBB'' w0 \<noteq> Done () w0"
  by (simp add: checkOneSum_def initGoSum_def then_do_def w0_def m_get_def HasPrefix_def Fatalf_def)

section \<open>Parsing what was serialized\<close>

lemma spaceLen_plain:
  assumes "\<not> asciiSpace c" and "(of_char c :: nat) < 128"
  shows "spaceLen (c # cs) = 0"
proof -
  have "c \<noteq> CHR 0xC2" "c \<noteq> CHR 0xE1" "c \<noteq> CHR 0xE2" "c \<noteq> CHR 0xE3"
    using assms(2) by auto
  then show ?thesis using assms(1) by simp
qed

lemma Fields_from_plain:
  "\<forall>c\<in>set f. \<not> asciiSpace c \<and> (of_char c :: nat) < 128 \<Longrightarrow>
   Fields_from (f @ rest) cur = Fields_from rest (cur @ f)"
proof (induction f arbitrary: cur)
  case Nil
  then show ?case by simp
next
  case (Cons c f)
  have "spaceLen (c # (f @ rest)) = 0"
    using Cons.prems by (intro spaceLen_plain) simp_all
  then have "Fields_from ((c # f) @ rest) cur = Fields_from (f @ rest) (cur @ [c])"
    by (simp del: spaceLen.simps)
  also have "\<dots> = Fields_from rest ((cur @ [c]) @ f)"
    using Cons by simp
  finally show ?case by simp
qed

lemma Fields_from_blank:
  "Fields_from (CHR '' '' # rest) cur = (if cur = [] then [] else [cur]) @ Fields_from rest []"
  by (simp add: asciiSpace_def)

lemma Fields_line:
  assumes "field_ok a" and "field_ok b" and "field_ok c"
  shows "Fields (a @ '' '' @ b @ '' '' @ c) = [a, b, c]"
proof -
  have pa: "\<forall>x\<in>set a. \<not> asciiSpace x \<and> (of_char x :: nat) < 128"
    and pb: "\<forall>x\<in>set b. \<not> asciiSpace x \<and> (of_char x :: nat) < 128"
    and pc: "\<forall>x\<in>set c. \<not> asciiSpace x \<and> (of_char x :: nat) < 128"
    and ne: "a \<noteq> []" "b \<noteq> []" "c \<noteq> []"
    using assms by (simp_all add: field_ok_def)
  have "Fields_from (a @ (CHR '' '' # (b @ (CHR '' '' # (c @ []))))) [] =
        Fields_from (CHR '' '' # (b @ (CHR '' '' # (c @ [])))) a"
    using Fields_from_plain [OF pa, of _ "[]"] by simp
  also have "\<dots> = [a] @ Fields_from (b @ (CHR '' '' # (c @ []))) []"
    using ne by (simp only: Fields_from_blank) simp
  also have "Fields_from (b @ (CHR '' '' # (c @ []))) [] = Fields_from (CHR '' '' # (c @ [])) b"
    using Fields_from_plain [OF pb, of _ "[]"] by simp
  also have "\<dots> = [b] @ Fields_from (c @ []) []"
    using ne by (simp only: Fields_from_blank) simp
  also have "Fields_from (c @ []) [] = Fields_from [] c"
    using Fields_from_plain [OF pc, of "[]" "[]"] by simp
  finally show ?thesis using ne by (simp add: Fields_def)
qed

lemma no_NL_plain: "\<not> asciiSpace c \<Longrightarrow> c \<noteq> NL"
  by (auto simp: asciiSpace_def NL_def)

lemma cut_line_line:
  "\<forall>c\<in>set l. c \<noteq> NL \<Longrightarrow> cut_line (l @ NL # rest) = (l, rest)"
  by (simp add: cut_line_def takeWhile_append2 dropWhile_append2)


lemma field_ok_no_NL: "field_ok s \<Longrightarrow> \<forall>c\<in>set s. c \<noteq> NL"
  by (auto simp: field_ok_def asciiSpace_def NL_def)

lemma readGoSum_loop_step:
  assumes "field_ok (mod_Path k)" and "field_ok (mod_Version k)" and "field_ok h"
  shows "readGoSum_loop fl n (line_of (k, h) @ rest) (Some al) =
         readGoSum_loop fl (n + 1) rest (Some (add_entry (k, h) al))"
proof -
  let ?l = "mod_Path k @ '' '' @ mod_Version k @ '' '' @ h"
  have nl: "\<forall>c\<in>set ?l. c \<noteq> NL"
    using assms field_ok_no_NL by (auto simp: NL_def)
  have data: "line_of (k, h) @ rest = ?l @ NL # rest"
    by (simp add: line_of_def)
  have cut: "cut_line (line_of (k, h) @ rest) = (?l, rest)"
    unfolding data by (rule cut_line_line [OF nl])
  have f: "Fields ?l = [mod_Path k, mod_Version k, h]"
    by (rule Fields_line [OF assms])
  have f': "Fields (fst (cut_line (line_of (k, h) @ rest))) = [mod_Path k, mod_Version k, h]"
    by (simp only: cut fst_conv f)
  have r: "snd (cut_line (line_of (k, h) @ rest)) = rest"
    by (simp only: cut snd_conv)
  have ne: "line_of (k, h) \<noteq> []"
    by (simp add: line_of_def)
  have k: "\<lparr>mod_Path = mod_Path k, mod_Version = mod_Version k\<rparr> = k"
    by simp
  show ?thesis
    apply (subst readGoSum_loop.simps)
    apply (simp only: f' r)
    apply (simp add: ne k add_entry_def)
    done
qed

lemma readGoSum_loop_lines:
  assumes "\<forall>e\<in>set es. field_ok (mod_Path (fst e)) \<and> field_ok (mod_Version (fst e)) \<and> field_ok (snd e)"
  shows "readGoSum_loop fl n (concat (map line_of es)) (Some al) = Ok (Some (fold add_entry es al))"
  using assms
proof (induction es arbitrary: n al)
  case Nil
  show ?case by (subst readGoSum_loop.simps) simp
next
  case (Cons e es)
  obtain k h where e: "e = (k, h)" by (cases e)
  have "readGoSum_loop fl n (line_of (k, h) @ concat (map line_of es)) (Some al) =
        readGoSum_loop fl (n + 1) (concat (map line_of es)) (Some (add_entry (k, h) al))"
    using Cons.prems by (intro readGoSum_loop_step) (simp_all add: e)
  then show ?case using Cons by (simp add: e)
qed

lemma m_get_add_entry:
  "m_get (Some (add_entry e al)) k =
    (if k = fst e then m_get (Some al) k @ [snd e] else m_get (Some al) k)"
  by (simp add: add_entry_def m_put_def m_get_def update_conv')

lemma m_get_fold_add_entry:
  "m_get (Some (fold add_entry es al)) k = m_get (Some al) k @ map snd (filter (\<lambda>e. fst e = k) es)"
  by (induction es arbitrary: al) (auto simp: m_get_add_entry)

lemma keys_add_entry: "fst ` set (add_entry e al) = insert (fst e) (fst ` set al)"
  by (simp add: add_entry_def m_put_def dom_update)

lemma keys_fold_add_entry: "fst ` set (fold add_entry es al) = fst ` set al \<union> fst ` set es"
  by (induction es arbitrary: al) (auto simp: keys_add_entry)

lemma map_of_m_get:
  "map_of al k = (if k \<in> fst ` set al then Some (m_get (Some al) k) else None)"
  by (auto simp: m_get_def map_of_eq_None_iff split: option.splits)


lemma WriteGoSum_buf_entries: "WriteGoSum_buf al mods = concat (map line_of (entries_of al mods))"
  by (induction mods) (simp_all add: WriteGoSum_buf_def entries_of_def line_of_def comp_def)

lemma filter_entries_of:
  "distinct mods \<Longrightarrow>
   map snd (filter (\<lambda>e. fst e = k) (entries_of al mods)) =
     (if k \<in> set mods then sort (m_get (Some al) k) else [])"
proof (induction mods)
  case Nil
  show ?case by (simp add: entries_of_def)
next
  case (Cons mv mods)
  have here: "map snd (filter (\<lambda>e. fst e = k) (map (Pair mv) hs)) = (if mv = k then hs else [])" for hs
    by (induction hs) auto
  have "entries_of al (mv # mods) = map (Pair mv) (sort (m_get (Some al) mv)) @ entries_of al mods"
    by (simp add: entries_of_def)
  then show ?case using Cons by (auto simp: here)
qed

lemma keys_entries_of:
  "fst ` set (entries_of al mods) = {mv \<in> set mods. m_get (Some al) mv \<noteq> []}"
proof (induction mods)
  case Nil
  show ?case by (simp add: entries_of_def)
next
  case (Cons mv mods)
  have split: "entries_of al (mv # mods) = map (Pair mv) (sort (m_get (Some al) mv)) @ entries_of al mods"
    by (simp add: entries_of_def)
  have "fst ` set (map (Pair mv) hs) = (if hs = [] then {} else {mv})" for hs :: "string list"
    by (cases hs) (auto simp: image_iff)
  then have "fst ` set (map (Pair mv) (sort (m_get (Some al) mv)))
      = (if m_get (Some al) mv = [] then {} else {mv})"
    by simp
  with Cons show ?case
    unfolding split set_append image_Un by auto
qed

lemma m_get_in_al:
  "distinct (map fst al) \<Longrightarrow> (k, l) \<in> set al \<Longrightarrow> m_get (Some al) k = l"
  by (simp add: m_get_def)

lemma entries_of_ok:
  assumes "sumMap_ok al" and "set mods \<subseteq> fst ` set al" and "e \<in> set (entries_of al mods)"
  shows "field_ok (mod_Path (fst e)) \<and> field_ok (mod_Version (fst e)) \<and> field_ok (snd e)"
proof -
  obtain k h where e: "e = (k, h)" by (cases e)
  from assms(3) have k: "k \<in> set mods" and h: "h \<in> set (m_get (Some al) k)"
    by (auto simp: entries_of_def e)
  from k assms(2) obtain l where kl: "(k, l) \<in> set al" by auto
  with assms(1) have "m_get (Some al) k = l"
    by (simp add: m_get_in_al sumMap_ok_def)
  with h kl assms(1) show ?thesis
    by (auto simp: sumMap_ok_def e)
qed

lemma map_of_sorted_lists:
  "map_of (map (\<lambda>(k, l). (k, sort l)) al) k = map_option sort (map_of al k)"
  by (induction al) auto

lemma parse_serialized:
  assumes ok: "sumMap_ok al"
    and d: "distinct mods" and s: "set mods = fst ` set al"
  shows "readGoSum_loop fl 0 (WriteGoSum_buf al mods) (Some []) =
           Ok (Some (fold add_entry (entries_of al mods) []))"
    and "map_of (fold add_entry (entries_of al mods) []) =
           map_of (map (\<lambda>(k, l). (k, sort l)) al)"
proof -
  let ?al' = "fold add_entry (entries_of al mods) []"
  have "\<forall>e\<in>set (entries_of al mods).
          field_ok (mod_Path (fst e)) \<and> field_ok (mod_Version (fst e)) \<and> field_ok (snd e)"
  proof
    fix e assume "e \<in> set (entries_of al mods)"
    moreover have "set mods \<subseteq> fst ` set al" using s by simp
    ultimately show "field_ok (mod_Path (fst e)) \<and> field_ok (mod_Version (fst e)) \<and> field_ok (snd e)"
      by (rule entries_of_ok [OF ok, rotated])
  qed
  then show "readGoSum_loop fl 0 (WriteGoSum_buf al mods) (Some []) = Ok (Some ?al')"
    unfolding WriteGoSum_buf_entries by (rule readGoSum_loop_lines)
  have ne: "m_get (Some al) k \<noteq> []" if "k \<in> fst ` set al" for k
  proof -
    from that obtain l where kl: "(k, l) \<in> set al" by auto
    with ok have "m_get (Some al) k = l" "l \<noteq> []"
      by (auto simp: sumMap_ok_def m_get_in_al)
    then show ?thesis by simp
  qed
  have "{mv \<in> set mods. m_get (Some al) mv \<noteq> []} = fst ` set al"
    using ne s by blast
  then have keys: "fst ` set ?al' = fst ` set al"
    by (simp add: keys_fold_add_entry keys_entries_of)
  have get: "m_get (Some ?al') k = (if k \<in> fst ` set al then sort (m_get (Some al) k) else [])" for k
  proof -
    have "m_get (Some []) k = []" by (simp add: m_get_def)
    then show ?thesis
      using filter_entries_of [OF d, of k al] s
      by (simp only: m_get_fold_add_entry append_Nil)
  qed
  show "map_of ?al' = map_of (map (\<lambda>(k, l). (k, sort l)) al)"
  proof
    fix k
    have "map_of ?al' k = (if k \<in> fst ` set al then Some (sort (m_get (Some al) k)) else None)"
      by (subst map_of_m_get) (simp add: keys get)
    also have "\<dots> = map_option sort (map_of al k)"
      using map_of_m_get [of al k] by simp
    finally show "map_of ?al' k = map_of (map (\<lambda>(k, l). (k, sort l)) al) k"
      by (simp add: map_of_sorted_lists)
  qed
qed


lemma sort_lists_id:
  "\<forall>(k, l)\<in>set al. sorted l \<Longrightarrow> map (\<lambda>(k, l). (k, sort l)) al = al"
  by (induction al) (auto simp: sort_key_id_if_sorted)

text \<open>
  C4 (amended). For a map with one entry per key, whose paths, versions and hashes are
  well-formed fields and whose hash lists are not empty, and with \<open>module.Sort\<close>
  returning the keys it was given, each once: parsing the serialization into an empty
  store succeeds and yields the map with every hash list sorted ascending. It is the map
  itself when its hash lists are sorted.
\<close>

theorem lockfile_round_trip_sorted:
  assumes "sumMap_ok al"
    and "distinct (module_Sort E (map fst al))"
    and "set (module_Sort E (map fst al)) = set (map fst al)"
    and "goSum_m w = Some []"
  shows "\<exists>al'. readGoSum fl (WriteGoSum_buf al (module_Sort E (map fst al))) w
                  = Done () (w\<lparr>goSum_m := Some al'\<rparr>)
           \<and> map_of al' = map_of (map (\<lambda>(k, l). (k, sort l)) al)
           \<and> ((\<forall>(k, l)\<in>set al. sorted l) \<longrightarrow> map_of al' = map_of al)"
proof -
  let ?mods = "module_Sort E (map fst al)"
  let ?al' = "fold add_entry (entries_of al ?mods) []"
  have s: "set ?mods = fst ` set al" using assms(3) by simp
  have "readGoSum fl (WriteGoSum_buf al ?mods) w = Done () (w\<lparr>goSum_m := Some ?al'\<rparr>)"
    by (simp add: readGoSum_def assms(4) parse_serialized(1) [OF assms(1,2) s])
  moreover have m: "map_of ?al' = map_of (map (\<lambda>(k, l). (k, sort l)) al)"
    by (rule parse_serialized(2) [OF assms(1,2) s])
  moreover have "map_of ?al' = map_of al" if "\<forall>(k, l)\<in>set al. sorted l"
    using m sort_lists_id [OF that] by simp
  ultimately show ?thesis by blast
qed

lemma sumMap_ok_alS: "sumMap_ok alS"
  by (simp add: sumMap_ok_def alS_def mv0_def field_ok_def asciiSpace_def)

lemma sumMap_ok_alU: "sumMap_ok alU"
  by (simp add: sumMap_ok_def alU_def mv0_def field_ok_def asciiSpace_def)

theorem lockfile_round_trip_sorted_witness:
  "\<exists>al'. readGoSum ''go.sum'' (WriteGoSum_buf alS (module_Sort E0 (map fst alS))) wE
            = Done () (wE\<lparr>goSum_m := Some al'\<rparr>)
         \<and> map_of al' = map_of alS"
proof -
  have "distinct (module_Sort E0 (map fst alS))"
    and "set (module_Sort E0 (map fst alS)) = set (map fst alS)"
    and "goSum_m wE = Some []"
    and "\<forall>(k, l)\<in>set alS. sorted l"
    by (simp_all add: E0_def alS_def wE_def w0_def)
  from lockfile_round_trip_sorted [OF sumMap_ok_alS this(1,2,3), of "''go.sum''"] this(4)
  show ?thesis by blast
qed

text \<open>
  C4 as stated fails: the list \<open>h1:BBB\<close>, \<open>h1:AAA\<close> under one module is written in
  sorted order, so parsing gives \<open>h1:AAA\<close>, \<open>h1:BBB\<close>, another map.
\<close>

theorem lockfile_round_trip_counterexample:
  "sumMap_ok alU
   \<and> readGoSum ''go.sum'' (WriteGoSum_buf alU (module_Sort E0 (map fst alU))) wE
       = Done () (wE\<lparr>goSum_m := Some [(mv0, [''h1:AAA'', ''h1:BBB''])]\<rparr>)
   \<and> map_of [(mv0, [''h1:AAA'', ''h1:BBB''])] mv0 \<noteq> map_of alU mv0"
proof -
  have mods: "module_Sort E0 (map fst alU) = [mv0]"
    by (simp add: E0_def alU_def)
  have "readGoSum_loop ''go.sum'' 0 (WriteGoSum_buf alU [mv0]) (Some [])
        = Ok (Some (fold add_entry (entries_of alU [mv0]) []))"
    by (rule parse_serialized(1) [OF sumMap_ok_alU]) (simp_all add: alU_def)
  moreover have "fold add_entry (entries_of alU [mv0]) [] = [(mv0, [''h1:AAA'', ''h1:BBB''])]"
    by (simp add: entries_of_def alU_def m_get_def add_entry_def m_put_def)
  ultimately have p: "readGoSum_loop ''go.sum'' 0
      (WriteGoSum_buf alU (module_Sort E0 (map fst alU))) (Some [])
        = Ok (Some [(mv0, [''h1:AAA'', ''h1:BBB''])])"
    by (simp only: mods)
  have g: "goSum_m wE = Some []"
    by (simp add: wE_def)
  have "map_of [(mv0, [''h1:AAA'', ''h1:BBB''])] mv0 \<noteq> map_of alU mv0"
    by (simp add: alU_def)
  then show ?thesis
    by (simp add: sumMap_ok_alU readGoSum_def p g)
qed

section \<open>Properties of WriteGoSum\<close>

lemma WriteGoSum_buf_cong:
  assumes "map_of al' = map_of al"
  shows "WriteGoSum_buf al' mods = WriteGoSum_buf al mods"
proof -
  have "m_get (Some al') = m_get (Some al)"
    using assms by (simp add: m_get_def fun_eq_iff)
  then show ?thesis by (simp add: WriteGoSum_buf_def)
qed

lemma WriteGoSum_loaded:
  assumes "GoSumFile w \<noteq> []" and "goSum_m w = Some al"
  shows "WriteGoSum E w =
    (if (case ReadFile w (GoSumFile w) of Inl e \<Rightarrow> [] | Inr d \<Rightarrow> d)
          \<noteq> WriteGoSum_buf al (module_Sort E (map fst al))
     then (case WriteFile (GoSumFile w) (WriteGoSum_buf al (module_Sort E (map fst al)))
                  (w\<lparr>goSum_m := Some (sort_visited (module_Sort E (map fst al)) al)\<rparr>) of
             (Some err, w2) \<Rightarrow> Fatalf (''vgo: writing go.sum: '' @ Error err) w2
           | (None, w2) \<Rightarrow> Done () (remove_modverify w2))
     else Done () (remove_modverify
            (w\<lparr>goSum_m := Some (sort_visited (module_Sort E (map fst al)) al)\<rparr>)))"
  using assms by (simp add: WriteGoSum_def initGoSum_loaded then_do_def)

lemma remove_modverify_gone:
  "goSum_modverify w \<noteq> [] \<Longrightarrow> map_of (disk (remove_modverify w)) (goSum_modverify w) = None"
  by (simp add: remove_modverify_def Remove_def delete_conv')

text \<open>
  C5. With the store loaded and enabled, WriteGoSum builds the text whose lines are the
  keys in the order \<open>module.Sort\<close> gives them, each with its hashes sorted ascending,
  one line \<open>path version hash\<close> per hash. When the lockfile already holds exactly this
  text (or cannot be read and the text is empty) nothing is written; otherwise the text is
  written, and a failed write ends the process. In every run that returns, the
  \<open>.modverify\<close> file noted at load time is gone afterwards. The text depends on the map
  only, not on the order in which the keys are visited, as long as \<open>module.Sort\<close> answers
  alike for two enumerations of the same keys.
\<close>

theorem WriteGoSum_canonical:
  assumes "GoSumFile w \<noteq> []" and "goSum_m w = Some al"
  shows "(let mods = module_Sort E (map fst al);
              buf = concat (map line_of (entries_of al mods));
              w1 = w\<lparr>goSum_m := Some (sort_visited mods al)\<rparr>;
              same = ((case ReadFile w (GoSumFile w) of Inl e \<Rightarrow> [] | Inr d \<Rightarrow> d) = buf)
          in (same \<longrightarrow> WriteGoSum E w = Done () (remove_modverify w1))
           \<and> (\<not> same \<and> disk_fault w (GoSumFile w) = None \<longrightarrow>
                WriteGoSum E w = Done () (remove_modverify
                   (w1\<lparr>disk := AList.update (GoSumFile w) (Content buf) (disk w)\<rparr>)))
           \<and> (\<not> same \<and> disk_fault w (GoSumFile w) \<noteq> None \<longrightarrow> (\<exists>w'. WriteGoSum E w = Fatal w'))
           \<and> (\<forall>w'. WriteGoSum E w = Done () w' \<longrightarrow> goSum_modverify w \<noteq> [] \<longrightarrow>
                  map_of (disk w') (goSum_modverify w) = None)
           \<and> (\<forall>al'. (\<forall>ks ks'. distinct ks \<and> distinct ks' \<and> set ks = set ks'
                               \<longrightarrow> module_Sort E ks = module_Sort E ks')
                    \<and> distinct (map fst al) \<and> distinct (map fst al') \<and> map_of al' = map_of al
                  \<longrightarrow> WriteGoSum_buf al' (module_Sort E (map fst al')) = buf))"
proof -
  let ?mods = "module_Sort E (map fst al)"
  let ?buf = "WriteGoSum_buf al ?mods"
  let ?w1 = "w\<lparr>goSum_m := Some (sort_visited ?mods al)\<rparr>"
  let ?same = "(case ReadFile w (GoSumFile w) of Inl e \<Rightarrow> [] | Inr d \<Rightarrow> d) = ?buf"
  note eq = WriteGoSum_loaded [OF assms, of E]
  have c1: "?same \<longrightarrow> WriteGoSum E w = Done () (remove_modverify ?w1)"
    by (simp add: eq)
  have c2: "\<not> ?same \<and> disk_fault w (GoSumFile w) = None \<longrightarrow>
      WriteGoSum E w = Done () (remove_modverify
        (?w1\<lparr>disk := AList.update (GoSumFile w) (Content ?buf) (disk w)\<rparr>))"
    by (simp add: eq WriteFile_def)
  have c3: "\<not> ?same \<and> disk_fault w (GoSumFile w) \<noteq> None \<longrightarrow> (\<exists>w'. WriteGoSum E w = Fatal w')"
    by (auto simp: eq WriteFile_def Fatalf_def split: wstage.splits)
  have c4: "\<forall>w'. WriteGoSum E w = Done () w' \<longrightarrow> goSum_modverify w \<noteq> [] \<longrightarrow>
      map_of (disk w') (goSum_modverify w) = None"
  proof (intro allI impI)
    fix w' assume d: "WriteGoSum E w = Done () w'" and mv: "goSum_modverify w \<noteq> []"
    then obtain w2 where w': "w' = remove_modverify w2" and "goSum_modverify w2 = goSum_modverify w"
      by (auto simp: eq WriteFile_def Fatalf_def split: if_splits option.splits wstage.splits)
    then show "map_of (disk w') (goSum_modverify w) = None"
      using remove_modverify_gone [of w2] mv by simp
  qed
  have c5: "WriteGoSum_buf al' (module_Sort E (map fst al')) = ?buf"
    if inv: "\<forall>ks ks'. distinct ks \<and> distinct ks' \<and> set ks = set ks'
                \<longrightarrow> module_Sort E ks = module_Sort E ks'"
      and d: "distinct (map fst al)" "distinct (map fst al')" and m: "map_of al' = map_of al" for al'
  proof -
    have "dom (map_of al') = dom (map_of al)" using m by simp
    then have "set (map fst al') = set (map fst al)"
      by (simp add: dom_map_of_conv_image_fst)
    with inv d have "module_Sort E (map fst al') = ?mods" by blast
    then show ?thesis using WriteGoSum_buf_cong [OF m] by simp
  qed
  show ?thesis
    unfolding Let_def WriteGoSum_buf_entries [symmetric]
    using c1 c2 c3 c4 c5 by blast
qed


lemma module_Sort_E0_inv:
  "distinct ks \<and> distinct ks' \<and> set ks = set ks' \<longrightarrow> module_Sort E0 ks = module_Sort E0 ks'"
proof (intro impI, elim conjE)
  let ?f = "\<lambda>mv :: module_Version. (mod_Path mv, mod_Version mv)"
  assume d: "distinct ks" "distinct ks'" and s: "set ks = set ks'"
  have inj: "inj ?f"
    by (rule injI) (simp add: module_Version.equality)
  have "map ?f (sort_key ?f ks) = map ?f (sort_key ?f ks')"
  proof (rule sorted_distinct_set_unique)
    show "sorted (map ?f (sort_key ?f ks))" "sorted (map ?f (sort_key ?f ks'))"
      by simp_all
    show "distinct (map ?f (sort_key ?f ks))" "distinct (map ?f (sort_key ?f ks'))"
      using d inj by (simp_all add: distinct_map inj_on_def)
    show "set (map ?f (sort_key ?f ks)) = set (map ?f (sort_key ?f ks'))"
      using s by simp
  qed
  then have "sort_key ?f ks = sort_key ?f ks'"
    using inj by (simp add: inj_map_eq_map)
  then show "module_Sort E0 ks = module_Sort E0 ks'"
    by (simp add: E0_def)
qed

theorem WriteGoSum_canonical_witness:
  "WriteGoSum E0 w5 =
     Done () (w5\<lparr>goSum_m := Some [(mvB, [''h1:CCC'']), (mv0, [''h1:AAA'', ''h1:BBB''])],
                 disk := [(''/proj/go.sum'', Content buf5)]\<rparr>)
   \<and> WriteGoSum_buf (rev al5) (module_Sort E0 (map fst (rev al5))) = buf5"
proof -
  have mods: "module_Sort E0 (map fst al5) = [mv0, mvB]"
    by (simp add: E0_def al5_def mv0_def mvB_def)
  have ent: "concat (map line_of (entries_of al5 [mv0, mvB])) = buf5"
    by (simp add: entries_of_def al5_def m_get_def line_of_def buf5_def mv0_def mvB_def)
  have sv: "sort_visited [mv0, mvB] al5 = [(mvB, [''h1:CCC'']), (mv0, [''h1:AAA'', ''h1:BBB''])]"
    by (simp add: sort_visited_def al5_def mv0_def mvB_def)
  have rd: "ReadFile w5 (GoSumFile w5) = Inr []"
    by (simp add: ReadFile_def w5_def w0_def)
  have ne: "buf5 \<noteq> []" by (simp add: buf5_def)
  have d: "distinct (map fst al5)" "distinct (map fst (rev al5))" "map_of (rev al5) = map_of al5"
    by (auto simp: al5_def mv0_def mvB_def fun_eq_iff)
  have h: "GoSumFile w5 \<noteq> []" "goSum_m w5 = Some al5"
    by (simp_all add: w5_def w0_def)
  have flt: "disk_fault w5 (GoSumFile w5) = None"
    by (simp add: w5_def w0_def)
  from WriteGoSum_canonical [OF h, of E0]
  have "WriteGoSum E0 w5 = Done () (remove_modverify
          (w5\<lparr>goSum_m := Some [(mvB, [''h1:CCC'']), (mv0, [''h1:AAA'', ''h1:BBB''])],
               disk := AList.update (GoSumFile w5) (Content buf5) (disk w5)\<rparr>))"
    and "WriteGoSum_buf (rev al5) (module_Sort E0 (map fst (rev al5))) = buf5"
    using module_Sort_E0_inv d ne flt
    unfolding Let_def mods ent sv rd by auto
  then show ?thesis
    by (simp add: remove_modverify_def Remove_def w5_def w0_def)
qed

section \<open>Properties of the disk cache\<close>

text \<open>
  C8 (amended). When the revision is not a valid semantic version or \<open>SrcMod\<close> is
  unset, readDiskCache answers errNotCached with the empty file name whatever the disk
  holds. Otherwise it answers with the name of the cache file, with its content on a
  hit and errNotCached when the file cannot be read. Every error it returns is
  errNotCached, and writing under the empty name is a no-op.
\<close>

theorem readDiskCache_guard_and_miss:
  "(\<not> semver_IsValid E rv \<or> SrcMod w = [] \<longrightarrow>
      (\<forall>d. readDiskCache E (w\<lparr>disk := d\<rparr>) path rv suffix = ([], Inl errNotCached)))
   \<and> (semver_IsValid E rv \<and> SrcMod w \<noteq> [] \<longrightarrow>
        fst (readDiskCache E w path rv suffix)
          = Join [SrcMod w, ''cache/download'', path, ''@v'', rv @ ''.'' @ suffix]
        \<and> snd (readDiskCache E w path rv suffix)
          = (case ReadFile w (Join [SrcMod w, ''cache/download'', path, ''@v'', rv @ ''.'' @ suffix]) of
               Inl e \<Rightarrow> Inl errNotCached | Inr data \<Rightarrow> Inr data))
   \<and> (\<forall>e. snd (readDiskCache E w path rv suffix) = Inl e \<longrightarrow> e = errNotCached)
   \<and> (\<forall>data. writeDiskCache [] data w = (None, w))"
  by (auto simp: readDiskCache_def writeDiskCache_def split: sum.splits)

theorem readDiskCache_guard_and_miss_witness:
  "readDiskCache E0 w0 ''m.io/a'' ''v1.0.0'' ''info''
     = (''/gopath/src/mod/cache/download/m.io/a/@v/v1.0.0.info'', Inl errNotCached)
   \<and> readDiskCache E0 (w0\<lparr>SrcMod := []\<rparr>) ''m.io/a'' ''v1.0.0'' ''info'' = ([], Inl errNotCached)"
proof -
  have v: "semver_IsValid E0 ''v1.0.0''" and s: "SrcMod w0 \<noteq> []"
    by (simp_all add: E0_def HasPrefix_def w0_def)
  have j: "Join [SrcMod w0, ''cache/download'', ''m.io/a'', ''@v'', ''v1.0.0'' @ ''.'' @ ''info'']
             = ''/gopath/src/mod/cache/download/m.io/a/@v/v1.0.0.info''"
    by (simp add: w0_def Join_def Clean_def clean_step_def)
  have r: "ReadFile w0 ''/gopath/src/mod/cache/download/m.io/a/@v/v1.0.0.info''
             = Inl (NotExist ''/gopath/src/mod/cache/download/m.io/a/@v/v1.0.0.info'')"
    by (simp add: ReadFile_def w0_def)
  have d: "(w0\<lparr>SrcMod := []\<rparr>)\<lparr>disk := disk w0\<rparr> = w0\<lparr>SrcMod := []\<rparr>"
    by simp
  from readDiskCache_guard_and_miss [of E0 "''v1.0.0''" w0 "''m.io/a''" "''info''"] v s
  have "readDiskCache E0 w0 ''m.io/a'' ''v1.0.0'' ''info''
     = (''/gopath/src/mod/cache/download/m.io/a/@v/v1.0.0.info'', Inl errNotCached)"
    unfolding j r by (simp add: prod_eq_iff)
  moreover from readDiskCache_guard_and_miss [of E0 "''v1.0.0''" "w0\<lparr>SrcMod := []\<rparr>" "''m.io/a''" "''info''"]
  have "\<forall>dk. readDiskCache E0 ((w0\<lparr>SrcMod := []\<rparr>)\<lparr>disk := dk\<rparr>) ''m.io/a'' ''v1.0.0'' ''info''
            = ([], Inl errNotCached)"
    by simp
  then have "readDiskCache E0 ((w0\<lparr>SrcMod := []\<rparr>)\<lparr>disk := disk w0\<rparr>) ''m.io/a'' ''v1.0.0'' ''info''
            = ([], Inl errNotCached)"
    by blast
  then have "readDiskCache E0 (w0\<lparr>SrcMod := []\<rparr>) ''m.io/a'' ''v1.0.0'' ''info'' = ([], Inl errNotCached)"
    by (simp only: d)
  ultimately show ?thesis by simp
qed

text \<open>
  C8 as stated fails: for the revision \<open>master\<close> the lookup is a miss, and the name
  returned is empty, not the name of the cache file.
\<close>

theorem readDiskCache_filename_counterexample:
  "readDiskCache E0 w0 ''m.io/a'' ''master'' ''info'' = ([], Inl errNotCached)
   \<and> Join [SrcMod w0, ''cache/download'', ''m.io/a'', ''@v'', ''master'' @ ''.'' @ ''info'']
        = ''/gopath/src/mod/cache/download/m.io/a/@v/master.info''
   \<and> fst (readDiskCache E0 w0 ''m.io/a'' ''master'' ''info'')
        \<noteq> Join [SrcMod w0, ''cache/download'', ''m.io/a'', ''@v'', ''master'' @ ''.'' @ ''info'']"
  by (simp add: readDiskCache_def E0_def HasPrefix_def w0_def Join_def Clean_def clean_step_def)

end
